theory Spec2Isabelle
  imports Main "HOL-Library.Word"
begin

section \<open>JavaScript values used by the services\<close>

text \<open>
  A rejected promise or a thrown exception is a value of \<open>js_error\<close>; every
  \<^verbatim>\<open>async\<close> method returns \<open>js_error + 'a\<close> (\<open>Inl\<close> is the rejection).
  Console output is not modelled.
\<close>

datatype js_error = Rejected string | RangeError | Error string

text \<open>
  \<^verbatim>\<open>Number(multisigInfo.transactionIndex)\<close> turns an unsigned integer into an
  IEEE-754 double: the nearest value with a 53-bit significand, ties to even, and
  \<^verbatim>\<open>Infinity\<close> from \<open>2 ^ 1024\<close> on. Only non-negative integral doubles and
  \<^verbatim>\<open>Infinity\<close> arise in \<^verbatim>\<open>sendTx\<close>, so \<open>jsnumber\<close> has just these.
\<close>

datatype jsnumber = Finite nat | PosInfinity

fun width :: "nat \<Rightarrow> nat" where
  "width n = (if n = 0 then 0 else Suc (width (n div 2)))"

declare width.simps [simp del]

definition round_double :: "nat \<Rightarrow> jsnumber" where
  "round_double n =
     (if width n \<le> 53 then Finite n
      else
        let e = width n - 53;
            q = n div 2 ^ e;
            r = n mod 2 ^ e;
            h = 2 ^ (e - 1);
            d = (if h < r \<or> (r = h \<and> odd q) then q + 1 else q) * 2 ^ e
        in if 2 ^ 1024 \<le> d then PosInfinity else Finite d)"

definition Number :: "nat \<Rightarrow> jsnumber" where
  "Number n = round_double n"

fun js_plus :: "jsnumber \<Rightarrow> jsnumber \<Rightarrow> jsnumber" where
  "js_plus (Finite a) (Finite b) = round_double (a + b)"
| "js_plus _ _ = PosInfinity"

fun BigInt :: "jsnumber \<Rightarrow> js_error + nat" where
  "BigInt (Finite n) = Inr n"
| "BigInt PosInfinity = Inl RangeError"

section \<open>The ledger connection and the key generator\<close>

type_synonym PublicKey = string

record Keypair =
  publicKey :: PublicKey
  secretKey :: string

type_synonym Connection = string

record ProgramConfig =
  authority :: PublicKey
  multisigCreationFee :: nat
  treasury :: PublicKey

record Multisig =
  threshold :: nat
  transactionIndex :: nat
  staleTransactionIndex :: nat

datatype account =
    ProgramConfigAccount ProgramConfig
  | MultisigAccount Multisig
  | VaultTransactionAccount "PublicKey list"

datatype request = GetLatestBlockhash | GetAccountInfo PublicKey

datatype response = BlockhashResponse string | AccountInfoResponse "account option"

text \<open>
  The world outside the process: \<open>ledger w n c q\<close> is what the RPC node answers to
  request \<open>q\<close> over connection \<open>c\<close> when \<open>n\<close> requests were made before it, \<open>calls\<close>
  is the trace of the requests made so far, \<open>keygen w n\<close> is the \<open>n\<close>-th key pair the
  random generator yields and \<open>generated\<close> counts the key pairs drawn.
\<close>

record World =
  ledger :: "nat \<Rightarrow> Connection \<Rightarrow> request \<Rightarrow> js_error + response"
  calls :: "(Connection \<times> request) list"
  keygen :: "nat \<Rightarrow> Keypair"
  generated :: nat

definition rpc :: "Connection \<Rightarrow> request \<Rightarrow> World \<Rightarrow> (js_error + response) \<times> World" where
  "rpc c q w = (ledger w (length (calls w)) c q, w\<lparr>calls := calls w @ [(c, q)]\<rparr>)"

definition Keypair_generate :: "World \<Rightarrow> Keypair \<times> World" where
  "Keypair_generate w = (keygen w (generated w), w\<lparr>generated := Suc (generated w)\<rparr>)"

definition getLatestBlockhash :: "Connection \<Rightarrow> World \<Rightarrow> (js_error + string) \<times> World" where
  "getLatestBlockhash c w =
     (case rpc c GetLatestBlockhash w of
        (Inl e, w') \<Rightarrow> (Inl e, w')
      | (Inr (BlockhashResponse h), w') \<Rightarrow> (Inr h, w')
      | (Inr (AccountInfoResponse a), w') \<Rightarrow> (Inl (Error ''malformed response''), w'))"

definition ProgramConfig_fromAccountAddress ::
  "Connection \<Rightarrow> PublicKey \<Rightarrow> World \<Rightarrow> (js_error + ProgramConfig) \<times> World" where
  "ProgramConfig_fromAccountAddress c a w =
     (case rpc c (GetAccountInfo a) w of
        (Inl e, w') \<Rightarrow> (Inl e, w')
      | (Inr (AccountInfoResponse (Some (ProgramConfigAccount p))), w') \<Rightarrow> (Inr p, w')
      | (Inr other, w') \<Rightarrow> (Inl (Error ''Unable to find ProgramConfig account''), w'))"

definition Multisig_fromAccountAddress ::
  "Connection \<Rightarrow> PublicKey \<Rightarrow> World \<Rightarrow> (js_error + Multisig) \<times> World" where
  "Multisig_fromAccountAddress c a w =
     (case rpc c (GetAccountInfo a) w of
        (Inl e, w') \<Rightarrow> (Inl e, w')
      | (Inr (AccountInfoResponse (Some (MultisigAccount m))), w') \<Rightarrow> (Inr m, w')
      | (Inr other, w') \<Rightarrow> (Inl (Error ''Unable to find Multisig account''), w'))"

definition VaultTransaction_fromAccountAddress ::
  "Connection \<Rightarrow> PublicKey \<Rightarrow> World \<Rightarrow> (js_error + PublicKey list) \<times> World" where
  "VaultTransaction_fromAccountAddress c a w =
     (case rpc c (GetAccountInfo a) w of
        (Inl e, w') \<Rightarrow> (Inl e, w')
      | (Inr (AccountInfoResponse (Some (VaultTransactionAccount ks))), w') \<Rightarrow> (Inr ks, w')
      | (Inr other, w') \<Rightarrow> (Inl (Error ''Unable to find VaultTransaction account''), w'))"

section \<open>The multisig program client\<close>

datatype Permissions = Permissions nat

definition Permissions_all :: Permissions where
  "Permissions_all = Permissions 7"

datatype Period = OneTime | Day | Week | Month

record Member =
  key :: PublicKey
  permissions :: Permissions

record TransactionInstruction =
  programId :: PublicKey
  keys :: "PublicKey list"
  data :: "nat list"

record TransactionMessage =
  payerKey :: PublicKey
  recentBlockhash :: string
  instructions :: "TransactionInstruction list"

text \<open>
  The address derivations of the program client (\<^verbatim>\<open>@sqds/multisig\<close>) are
  parameters: each is a function of its seeds. So is the client's serialisation of a
  transaction message for a vault, which may throw. An instruction built by the client
  is the builder's name with the arguments it was given; its byte encoding belongs to
  the client.
\<close>

record Sdk =
  getMultisigPda :: "PublicKey \<Rightarrow> PublicKey"
  getVaultPda :: "PublicKey \<Rightarrow> nat \<Rightarrow> PublicKey"
  getSpendingLimitPda :: "PublicKey \<Rightarrow> PublicKey \<Rightarrow> PublicKey"
  getTransactionPda :: "PublicKey \<Rightarrow> nat \<Rightarrow> PublicKey"
  getProgramConfigPda :: PublicKey
  messageBytes :: "PublicKey \<Rightarrow> TransactionMessage \<Rightarrow> js_error + nat list"

record MultisigCreateV2Args =
  mc_createKey :: PublicKey
  mc_creator :: PublicKey
  mc_multisigPda :: PublicKey
  mc_configAuthority :: PublicKey
  mc_timeLock :: nat
  mc_members :: "Member list"
  mc_threshold :: nat
  mc_treasury :: "PublicKey option"
  mc_rentCollector :: PublicKey

record AddSpendingLimitArgs =
  sl_multisigPda :: PublicKey
  sl_configAuthority :: PublicKey
  sl_spendingLimit :: PublicKey
  sl_rentPayer :: PublicKey
  sl_createKey :: PublicKey
  sl_vaultIndex :: nat
  sl_mint :: PublicKey
  sl_amount :: nat
  sl_period :: Period
  sl_members :: "PublicKey list"
  sl_destinations :: "PublicKey list"

record VaultTransactionCreateArgs =
  vc_multisigPda :: PublicKey
  vc_transactionIndex :: nat
  vc_creator :: PublicKey
  vc_vaultIndex :: nat
  vc_ephemeralSigners :: nat
  vc_transactionMessage :: TransactionMessage

record ProposalCreateArgs =
  pc_multisigPda :: PublicKey
  pc_transactionIndex :: nat
  pc_creator :: PublicKey

record ProposalApproveArgs =
  pa_multisigPda :: PublicKey
  pa_member :: PublicKey
  pa_transactionIndex :: nat

record VaultTransactionExecuteArgs =
  ve_connection :: Connection
  ve_multisigPda :: PublicKey
  ve_transactionIndex :: nat
  ve_member :: PublicKey

datatype Instruction =
    MultisigCreateV2 MultisigCreateV2Args
  | MultisigAddSpendingLimit AddSpendingLimitArgs
  | VaultTransactionCreate VaultTransactionCreateArgs
  | ProposalCreate ProposalCreateArgs
  | ProposalApprove ProposalApproveArgs
  | VaultTransactionExecute VaultTransactionExecuteArgs "PublicKey list"

text \<open>
  The builders that \<^verbatim>\<open>sendTx\<close> calls are synchronous and may throw. Each derives the
  address of the transaction or of the proposal from the index written as 8 bytes,
  which throws a range error from \<open>2 ^ 64\<close> on; \<^verbatim>\<open>vaultTransactionCreate\<close> then
  serialises the transaction message for the vault; \<^verbatim>\<open>proposalCreate\<close> then throws
  for an index above \<^verbatim>\<open>Number.MAX_SAFE_INTEGER\<close>, \<open>2 ^ 53 - 1\<close>.
\<close>

definition MAX_SAFE_INTEGER :: nat where
  "MAX_SAFE_INTEGER = 9007199254740991"

definition toU64Bytes :: "nat \<Rightarrow> js_error + nat" where
  "toU64Bytes n = (if 2 ^ 64 \<le> n then Inl RangeError else Inr n)"

definition vaultTransactionCreate :: "Sdk \<Rightarrow> VaultTransactionCreateArgs \<Rightarrow> js_error + Instruction" where
  "vaultTransactionCreate sdk args =
     (case toU64Bytes (vc_transactionIndex args) of
        Inl e \<Rightarrow> Inl e
      | Inr seed \<Rightarrow>
          (case messageBytes sdk (getVaultPda sdk (vc_multisigPda args) (vc_vaultIndex args))
                  (vc_transactionMessage args) of
             Inl e \<Rightarrow> Inl e
           | Inr bytes \<Rightarrow> Inr (VaultTransactionCreate args)))"

definition proposalCreate :: "ProposalCreateArgs \<Rightarrow> js_error + Instruction" where
  "proposalCreate args =
     (case toU64Bytes (pc_transactionIndex args) of
        Inl e \<Rightarrow> Inl e
      | Inr seed \<Rightarrow>
          if MAX_SAFE_INTEGER < pc_transactionIndex args
          then Inl (Error ''transactionIndex is too large'')
          else Inr (ProposalCreate args))"

definition proposalApprove :: "ProposalApproveArgs \<Rightarrow> js_error + Instruction" where
  "proposalApprove args =
     (case toU64Bytes (pa_transactionIndex args) of
        Inl e \<Rightarrow> Inl e
      | Inr seed \<Rightarrow> Inr (ProposalApprove args))"

record ExecuteResult =
  instruction :: Instruction
  lookupTableAccounts :: "PublicKey list"

text \<open>
  \<^verbatim>\<open>multisig.instructions.vaultTransactionExecute\<close> is the one asynchronous
  builder: it reads the vault transaction stored at the index it is given and lists the
  accounts that transaction touches.
\<close>

definition vaultTransactionExecute ::
  "Sdk \<Rightarrow> VaultTransactionExecuteArgs \<Rightarrow> World \<Rightarrow> (js_error + ExecuteResult) \<times> World" where
  "vaultTransactionExecute sdk args w =
     (case VaultTransaction_fromAccountAddress (ve_connection args)
             (getTransactionPda sdk (ve_multisigPda args) (ve_transactionIndex args)) w of
        (Inl e, w') \<Rightarrow> (Inl e, w')
      | (Inr ks, w') \<Rightarrow>
          (Inr \<lparr>instruction = VaultTransactionExecute args ks, lookupTableAccounts = []\<rparr>, w'))"

section \<open>MultiSigService\<close>

record MultiSigService =
  connection :: Connection
  feePayer :: Keypair
  createKey :: Keypair
  multisigPda :: PublicKey
  configTreasury :: "PublicKey option"
  agent :: PublicKey
  vaultPDA :: "PublicKey option"

definition constructor ::
  "Sdk \<Rightarrow> Connection \<Rightarrow> Keypair \<Rightarrow> PublicKey \<Rightarrow> Keypair option \<Rightarrow> World
     \<Rightarrow> MultiSigService \<times> World" where
  "constructor sdk conn fee_payer agent_key create_key w =
     (let (ck, w1) = (case create_key of Some k \<Rightarrow> (k, w) | None \<Rightarrow> Keypair_generate w);
          pda = getMultisigPda sdk (publicKey ck);
          vault = getVaultPda sdk pda 0
      in (\<lparr>connection = conn, feePayer = fee_payer, createKey = ck, multisigPda = pda,
           configTreasury = None, agent = agent_key, vaultPDA = Some vault\<rparr>, w1))"

record CreateMultiSigResult =
  cm_ix :: Instruction
  cm_create_key :: Keypair

definition createMultiSig ::
  "Sdk \<Rightarrow> MultiSigService \<Rightarrow> World
     \<Rightarrow> (js_error + CreateMultiSigResult) \<times> MultiSigService \<times> World" where
  "createMultiSig sdk s w =
     (let programConfigPda = getProgramConfigPda sdk in
      case ProgramConfig_fromAccountAddress (connection s) programConfigPda w of
        (Inl e, w1) \<Rightarrow> (Inl e, s, w1)
      | (Inr programConfig, w1) \<Rightarrow>
          let s1 = s\<lparr>configTreasury := Some (treasury programConfig)\<rparr>;
              ix = MultisigCreateV2
                     \<lparr>mc_createKey = publicKey (createKey s1),
                      mc_creator = publicKey (feePayer s1),
                      mc_multisigPda = multisigPda s1,
                      mc_configAuthority = publicKey (feePayer s1),
                      mc_timeLock = 0,
                      mc_members =
                        [\<lparr>key = publicKey (feePayer s1), permissions = Permissions_all\<rparr>,
                         \<lparr>key = agent s1, permissions = Permissions_all\<rparr>],
                      mc_threshold = 1,
                      mc_treasury = configTreasury s1,
                      mc_rentCollector = publicKey (feePayer s1)\<rparr>
          in (Inr \<lparr>cm_ix = ix, cm_create_key = createKey s1\<rparr>, s1, w1))"

record AddSpendingLimitResult =
  sl_ix :: Instruction
  sl_create_key :: PublicKey

definition addSpendingLimit ::
  "Sdk \<Rightarrow> MultiSigService \<Rightarrow> World \<Rightarrow> AddSpendingLimitResult \<times> MultiSigService \<times> World" where
  "addSpendingLimit sdk s w =
     (let (kp, w1) = Keypair_generate w;
          spendingLimitCreateKey = publicKey kp;
          spendingLimitPda = getSpendingLimitPda sdk (multisigPda s) spendingLimitCreateKey;
          ix = MultisigAddSpendingLimit
                 \<lparr>sl_multisigPda = multisigPda s,
                  sl_configAuthority = publicKey (feePayer s),
                  sl_spendingLimit = spendingLimitPda,
                  sl_rentPayer = publicKey (feePayer s),
                  sl_createKey = spendingLimitCreateKey,
                  sl_vaultIndex = 0,
                  sl_mint = ''EPjFWdd5AufqSSqeM2qN1xzybapC8G4wEGGkZwyTDt1v'',
                  sl_amount = 1000000,
                  sl_period = Day,
                  sl_members = [agent s],
                  sl_destinations = []\<rparr>
      in (\<lparr>sl_ix = ix, sl_create_key = spendingLimitCreateKey\<rparr>, s, w1))"

record SendTxResult =
  transfer_ix :: Instruction
  create_ix :: Instruction
  approve_ix :: Instruction

definition sendTx ::
  "Sdk \<Rightarrow> MultiSigService \<Rightarrow> TransactionInstruction list \<Rightarrow> World
     \<Rightarrow> (js_error + SendTxResult) \<times> MultiSigService \<times> World" where
  "sendTx sdk s ix w =
     (case getLatestBlockhash (connection s) w of
        (Inl e, w1) \<Rightarrow> (Inl e, s, w1)
      | (Inr blockhash, w1) \<Rightarrow>
          let tx_message =
                \<lparr>payerKey = agent s, recentBlockhash = blockhash, instructions = ix\<rparr>
          in case Multisig_fromAccountAddress (connection s) (multisigPda s) w1 of
               (Inl e, w2) \<Rightarrow> (Inl e, s, w2)
             | (Inr multisigInfo, w2) \<Rightarrow>
                 let currentTransactionIndex = Number (transactionIndex multisigInfo) in
                 case BigInt (js_plus currentTransactionIndex (Finite 1)) of
                   Inl e \<Rightarrow> (Inl e, s, w2)
                 | Inr newTransactionIndex \<Rightarrow>
                     (case vaultTransactionCreate sdk
                             \<lparr>vc_multisigPda = multisigPda s,
                              vc_transactionIndex = newTransactionIndex,
                              vc_creator = agent s,
                              vc_vaultIndex = 0,
                              vc_ephemeralSigners = 0,
                              vc_transactionMessage = tx_message\<rparr> of
                        Inl e \<Rightarrow> (Inl e, s, w2)
                      | Inr ix_transfer \<Rightarrow>
                          (case proposalCreate
                                  \<lparr>pc_multisigPda = multisigPda s,
                                   pc_transactionIndex = newTransactionIndex,
                                   pc_creator = agent s\<rparr> of
                             Inl e \<Rightarrow> (Inl e, s, w2)
                           | Inr ix_create \<Rightarrow>
                               (case proposalApprove
                                       \<lparr>pa_multisigPda = multisigPda s,
                                        pa_member = agent s,
                                        pa_transactionIndex = newTransactionIndex\<rparr> of
                                  Inl e \<Rightarrow> (Inl e, s, w2)
                                | Inr ix_approve \<Rightarrow>
                                    (Inr \<lparr>transfer_ix = ix_transfer, create_ix = ix_create,
                                           approve_ix = ix_approve\<rparr>, s, w2)))))"

definition executeTx ::
  "Sdk \<Rightarrow> MultiSigService \<Rightarrow> World
     \<Rightarrow> (js_error + ExecuteResult) \<times> MultiSigService \<times> World" where
  "executeTx sdk s w =
     (case vaultTransactionExecute sdk
             \<lparr>ve_connection = connection s,
              ve_multisigPda = multisigPda s,
              ve_transactionIndex = 1,
              ve_member = agent s\<rparr> w of
        (ix_execute, w1) \<Rightarrow> (ix_execute, s, w1))"

text \<open>
  A caller drives one service through a sequence of method calls; \<open>run\<close> performs them
  in order on the service and the world and drops the values they return.
\<close>

datatype call = CreateMultiSig | AddSpendingLimit | SendTx "TransactionInstruction list" | ExecuteTx

fun perform :: "Sdk \<Rightarrow> call \<Rightarrow> MultiSigService \<times> World \<Rightarrow> MultiSigService \<times> World" where
  "perform sdk CreateMultiSig (s, w) = snd (createMultiSig sdk s w)"
| "perform sdk AddSpendingLimit (s, w) = snd (addSpendingLimit sdk s w)"
| "perform sdk (SendTx ix) (s, w) = snd (sendTx sdk s ix w)"
| "perform sdk ExecuteTx (s, w) = snd (executeTx sdk s w)"

fun run :: "Sdk \<Rightarrow> call list \<Rightarrow> MultiSigService \<times> World \<Rightarrow> MultiSigService \<times> World" where
  "run sdk [] sw = sw"
| "run sdk (c # cs) sw = run sdk cs (perform sdk c sw)"

section \<open>MessageManager.splitMessage\<close>

text \<open>
  A JavaScript string is a sequence of UTF-16 code units and \<^verbatim>\<open>length\<close> counts
  them. \<open>split_newline\<close> is \<^verbatim>\<open>text.split("\n")\<close>: it always yields at least one
  line. An empty string is falsy, so \<^verbatim>\<open>if (currentChunk)\<close> tests for a non-empty
  chunk.
\<close>

type_synonym jsstring = "16 word list"

definition MAX_MESSAGE_LENGTH :: nat where
  "MAX_MESSAGE_LENGTH = 4096"

definition newline :: "16 word" where
  "newline = 0x0A"

fun split_newline :: "jsstring \<Rightarrow> jsstring list" where
  "split_newline [] = [[]]"
| "split_newline (c # cs) =
     (if c = newline then [] # split_newline cs
      else (case split_newline cs of
              [] \<Rightarrow> [[c]]
            | l # ls \<Rightarrow> (c # l) # ls))"

fun splitMessage_loop :: "jsstring list \<Rightarrow> jsstring list \<Rightarrow> jsstring \<Rightarrow> jsstring list \<times> jsstring" where
  "splitMessage_loop [] chunks currentChunk = (chunks, currentChunk)"
| "splitMessage_loop (line # lines) chunks currentChunk =
     (if length currentChunk + length line + 1 \<le> MAX_MESSAGE_LENGTH
      then splitMessage_loop lines chunks
             (currentChunk @ (if currentChunk \<noteq> [] then [newline] else []) @ line)
      else splitMessage_loop lines
             (if currentChunk \<noteq> [] then chunks @ [currentChunk] else chunks) line)"

definition splitMessage :: "jsstring \<Rightarrow> jsstring list" where
  "splitMessage text =
     (case splitMessage_loop (split_newline text) [] [] of
        (chunks, currentChunk) \<Rightarrow>
          if currentChunk \<noteq> [] then chunks @ [currentChunk] else chunks)"

section \<open>TokenProvider.fetchHolderList\<close>

text \<open>
  Balances are JavaScript numbers obtained with \<^verbatim>\<open>parseFloat\<close>, summed with
  \<^verbatim>\<open>+\<close> and printed with \<^verbatim>\<open>toString\<close>. The three operations are parameters
  over a type \<open>'n\<close> of numbers. Every element of \<^verbatim>\<open>token_accounts\<close> is taken to
  be an object with an owner and an amount.
\<close>

record 'n NumberOps =
  parseFloat :: "string \<Rightarrow> 'n"
  plus_number :: "'n \<Rightarrow> 'n \<Rightarrow> 'n"
  toString :: "'n \<Rightarrow> string"

record HolderData =
  address :: string
  balance :: string

record TokenAccount =
  owner :: string
  amount :: string

record TokenAccountsResult =
  token_accounts :: "TokenAccount list option"
  cursor :: "string option"

record HeliusData =
  result :: "TokenAccountsResult option"

record PostParams =
  p_limit :: nat
  p_mint :: string
  p_cursor :: "string option"

text \<open>
  The network and the clock: \<open>helius net n q\<close> is the outcome of posting \<open>q\<close> when
  \<open>n\<close> requests were posted before (\<open>Inl\<close>: axios rejects; \<open>Inr None\<close>: an empty
  body), \<open>posts\<close> is the trace of the requests, \<open>clock net n\<close> is what the \<open>n\<close>-th
  reading of \<^verbatim>\<open>Date.now()\<close> returns.
\<close>

record Net =
  helius :: "nat \<Rightarrow> PostParams \<Rightarrow> js_error + HeliusData option"
  posts :: "PostParams list"
  clock :: "nat \<Rightarrow> nat"
  ticks :: nat

definition axios_post :: "PostParams \<Rightarrow> Net \<Rightarrow> (js_error + HeliusData option) \<times> Net" where
  "axios_post q net = (helius net (length (posts net)) q, net\<lparr>posts := posts net @ [q]\<rparr>)"

definition Date_now :: "Net \<Rightarrow> nat \<times> Net" where
  "Date_now net = (clock net (ticks net), net\<lparr>ticks := Suc (ticks net)\<rparr>)"

text \<open>
  The cache (\<^verbatim>\<open>node-cache\<close>) maps a key to a value and the time at which it
  expires, 0 for never; reading an expired entry deletes it and yields nothing.
\<close>

type_synonym NodeCache = "string \<rightharpoonup> (HolderData list \<times> nat)"

definition stdTTL :: nat where
  "stdTTL = 3600"

definition NodeCache_get :: "string \<Rightarrow> NodeCache \<Rightarrow> Net \<Rightarrow> HolderData list option \<times> NodeCache \<times> Net" where
  "NodeCache_get k c net =
     (case c k of
        None \<Rightarrow> (None, c, net)
      | Some (v, t) \<Rightarrow>
          if t = 0 then (Some v, c, net)
          else (case Date_now net of
                  (now, net1) \<Rightarrow>
                    if t < now then (None, c(k := None), net1) else (Some v, c, net1)))"

definition NodeCache_set ::
  "string \<Rightarrow> HolderData list \<Rightarrow> nat option \<Rightarrow> NodeCache \<Rightarrow> Net \<Rightarrow> NodeCache \<times> Net" where
  "NodeCache_set k v ttl c net =
     (case Date_now net of
        (now, net1) \<Rightarrow>
          let livetime = (case ttl of
                            Some t \<Rightarrow> if t = 0 then 0 else now + t * 1000
                          | None \<Rightarrow> if stdTTL = 0 then 0 else now + stdTTL * 1000)
          in (c(k \<mapsto> (v, livetime)), net1))"

record TokenProvider =
  token_address :: string
  cache :: NodeCache

definition TokenProvider_new :: "string \<Rightarrow> TokenProvider" where
  "TokenProvider_new a = \<lparr>token_address = a, cache = Map.empty\<rparr>"

definition getCachedData ::
  "string \<Rightarrow> TokenProvider \<Rightarrow> Net \<Rightarrow> HolderData list option \<times> TokenProvider \<times> Net" where
  "getCachedData k p net =
     (case NodeCache_get k (cache p) net of (v, c, net1) \<Rightarrow> (v, p\<lparr>cache := c\<rparr>, net1))"

definition setCachedData ::
  "string \<Rightarrow> HolderData list \<Rightarrow> nat option \<Rightarrow> TokenProvider \<Rightarrow> Net \<Rightarrow> TokenProvider \<times> Net" where
  "setCachedData k v ttl p net =
     (case (if ttl \<noteq> None \<and> ttl \<noteq> Some 0
            then NodeCache_set k v ttl (cache p) net
            else NodeCache_set k v None (cache p) net) of
        (c, net1) \<Rightarrow> (p\<lparr>cache := c\<rparr>, net1))"

text \<open>
  A JavaScript \<^verbatim>\<open>Map\<close> keeps its entries in insertion order: setting a key that is
  present replaces its value in place, setting a new key appends an entry.
\<close>

fun Map_get :: "(string \<times> 'n) list \<Rightarrow> string \<Rightarrow> 'n option" where
  "Map_get [] k = None"
| "Map_get ((k', v) # m) k = (if k' = k then Some v else Map_get m k)"

fun Map_set :: "(string \<times> 'n) list \<Rightarrow> string \<Rightarrow> 'n \<Rightarrow> (string \<times> 'n) list" where
  "Map_set [] k v = [(k, v)]"
| "Map_set ((k', v') # m) k v = (if k' = k then (k, v) # m else (k', v') # Map_set m k v)"

definition add_account :: "'n NumberOps \<Rightarrow> (string \<times> 'n) list \<Rightarrow> TokenAccount \<Rightarrow> (string \<times> 'n) list" where
  "add_account ops allHoldersMap account =
     (let b = parseFloat ops (amount account) in
      case Map_get allHoldersMap (owner account) of
        Some old \<Rightarrow> Map_set allHoldersMap (owner account) (plus_number ops old b)
      | None \<Rightarrow> Map_set allHoldersMap (owner account) b)"

text \<open>
  \<open>page_accounts d\<close> is \<open>None\<close> exactly when the loop's second \<^verbatim>\<open>break\<close> fires on
  the response body \<open>d\<close>: no body, no result, no account list or an empty one.
\<close>

definition page_accounts :: "HeliusData option \<Rightarrow> (TokenAccount list \<times> string option) option" where
  "page_accounts d =
     (case d of
        None \<Rightarrow> None
      | Some body \<Rightarrow>
          (case result body of
             None \<Rightarrow> None
           | Some res \<Rightarrow>
               (case token_accounts res of
                  None \<Rightarrow> None
                | Some accs \<Rightarrow> if accs = [] then None else Some (accs, cursor res))))"

function holder_loop ::
  "'n NumberOps \<Rightarrow> string \<Rightarrow> (string \<times> 'n) list \<Rightarrow> nat \<Rightarrow> string option \<Rightarrow> Net
     \<Rightarrow> (js_error + (string \<times> 'n) list) \<times> Net" where
  "holder_loop ops tok allHoldersMap page cur net =
     (if 100 < page then (Inr allHoldersMap, net)
      else (case axios_post \<lparr>p_limit = 1000, p_mint = tok, p_cursor = cur\<rparr> net of
              (Inl e, net1) \<Rightarrow> (Inl e, net1)
            | (Inr d, net1) \<Rightarrow>
                (case page_accounts d of
                   None \<Rightarrow> (Inr allHoldersMap, net1)
                 | Some (accs, cur1) \<Rightarrow>
                     holder_loop ops tok (foldl (add_account ops) allHoldersMap accs)
                       (page + 1) cur1 net1)))"
  by pat_completeness auto
termination
  by (relation "measure (\<lambda>(ops, tok, m, page, cur, net). 101 - page)") auto

declare holder_loop.simps [simp del]

definition fetchHolderList ::
  "'n NumberOps \<Rightarrow> TokenProvider \<Rightarrow> Net \<Rightarrow> (js_error + HolderData list) \<times> TokenProvider \<times> Net" where
  "fetchHolderList ops p net =
     (let cacheKey = ''holderList_'' @ token_address p in
      case getCachedData cacheKey p net of
        (Some cachedData, p1, net1) \<Rightarrow> (Inr cachedData, p1, net1)
      | (None, p1, net1) \<Rightarrow>
          (case holder_loop ops (token_address p1) [] 1 None net1 of
             (Inl e, net2) \<Rightarrow>
               (Inl (Error ''Failed to fetch holder list from Helius.''), p1, net2)
           | (Inr allHoldersMap, net2) \<Rightarrow>
               let holders = map (\<lambda>(a, b). \<lparr>address = a, balance = toString ops b\<rparr>)
                               allHoldersMap
               in case setCachedData cacheKey holders (Some 3600) p1 net2 of
                    (p2, net3) \<Rightarrow> (Inr holders, p2, net3)))"

definition cache_distinct :: "TokenProvider \<Rightarrow> bool" where
  "cache_distinct p = (\<forall>k v t. cache p k = Some (v, t) \<longrightarrow> distinct (map address v))"

section \<open>Concrete worlds\<close>

text \<open>
  A program client whose derivations concatenate their seeds, a ledger whose multisig
  account reports \<open>5 + n\<close> as its transaction index at the \<open>n\<close>-th request, and a
  service constructed over them.
\<close>

definition demo_sdk :: Sdk where
  "demo_sdk =
     \<lparr>getMultisigPda = (\<lambda>k. ''multisig/'' @ k),
      getVaultPda = (\<lambda>m i. ''vault/'' @ m),
      getSpendingLimitPda = (\<lambda>m k. ''limit/'' @ k),
      getTransactionPda = (\<lambda>m i. ''tx/'' @ m),
      getProgramConfigPda = ''program_config'',
      messageBytes = (\<lambda>v m. Inr [])\<rparr>"

definition demo_account :: "nat \<Rightarrow> PublicKey \<Rightarrow> account option" where
  "demo_account n a =
     (if a = ''program_config''
      then Some (ProgramConfigAccount
                   \<lparr>authority = ''authority'', multisigCreationFee = 0, treasury = ''treasury''\<rparr>)
      else if a = ''multisig/ck''
      then Some (MultisigAccount
                   \<lparr>threshold = 1, transactionIndex = 5 + n, staleTransactionIndex = 0\<rparr>)
      else if a = ''tx/multisig/ck''
      then Some (VaultTransactionAccount [''agent''])
      else None)"

fun demo_ledger :: "nat \<Rightarrow> Connection \<Rightarrow> request \<Rightarrow> js_error + response" where
  "demo_ledger n c GetLatestBlockhash = Inr (BlockhashResponse ''blockhash'')"
| "demo_ledger n c (GetAccountInfo a) = Inr (AccountInfoResponse (demo_account n a))"

definition demo_keygen :: "nat \<Rightarrow> Keypair" where
  "demo_keygen n = \<lparr>publicKey = replicate (Suc n) (CHR ''k''), secretKey = []\<rparr>"

definition demo_world :: World where
  "demo_world = \<lparr>ledger = demo_ledger, calls = [], keygen = demo_keygen, generated = 0\<rparr>"

definition demo_service :: MultiSigService where
  "demo_service =
     \<lparr>connection = ''rpc'',
      feePayer = \<lparr>publicKey = ''payer'', secretKey = ''payer_secret''\<rparr>,
      createKey = \<lparr>publicKey = ''ck'', secretKey = ''ck_secret''\<rparr>,
      multisigPda = ''multisig/ck'',
      configTreasury = None,
      agent = ''agent'',
      vaultPDA = Some ''vault/multisig/ck''\<rparr>"

text \<open>A ledger whose multisig account has reached transaction index \<open>2 ^ 53\<close>.\<close>

fun big_ledger :: "nat \<Rightarrow> Connection \<Rightarrow> request \<Rightarrow> js_error + response" where
  "big_ledger n c GetLatestBlockhash = Inr (BlockhashResponse ''blockhash'')"
| "big_ledger n c (GetAccountInfo a) =
     Inr (AccountInfoResponse (Some (MultisigAccount
       \<lparr>threshold = 1, transactionIndex = 9007199254740992, staleTransactionIndex = 0\<rparr>)))"

definition big_world :: World where
  "big_world = \<lparr>ledger = big_ledger, calls = [], keygen = demo_keygen, generated = 0\<rparr>"

text \<open>A node that rejects every request, and one that rejects every account read.\<close>

definition offline_world :: World where
  "offline_world =
     \<lparr>ledger = (\<lambda>n c q. Inl (Rejected ''offline'')), calls = [], keygen = demo_keygen,
      generated = 0\<rparr>"

fun flaky_ledger :: "nat \<Rightarrow> Connection \<Rightarrow> request \<Rightarrow> js_error + response" where
  "flaky_ledger n c GetLatestBlockhash = Inr (BlockhashResponse ''blockhash'')"
| "flaky_ledger n c (GetAccountInfo a) = Inl (Rejected ''429'')"

definition flaky_world :: World where
  "flaky_world = \<lparr>ledger = flaky_ledger, calls = [], keygen = demo_keygen, generated = 0\<rparr>"

text \<open>A generator that yields the same key pair every time.\<close>

definition stuck_world :: World where
  "stuck_world =
     \<lparr>ledger = demo_ledger, calls = [], keygen = (\<lambda>n. \<lparr>publicKey = ''k'', secretKey = []\<rparr>),
      generated = 0\<rparr>"

text \<open>The requests issued between a world and a later one.\<close>

definition requests_made :: "World \<Rightarrow> World \<Rightarrow> request list" where
  "requests_made w w' = map snd (drop (length (calls w)) (calls w'))"

definition is_blockhash :: "js_error + response \<Rightarrow> bool" where
  "is_blockhash x = (case x of Inr (BlockhashResponse h) \<Rightarrow> True | _ \<Rightarrow> False)"

text \<open>A message of two short lines.\<close>

definition demo_text :: jsstring where
  "demo_text = [0x61, 0x62, 0x0A, 0x63, 0x64]"

text \<open>
  Numbers as naturals written in unary, and a network whose first page holds three token
  accounts, two of them of one owner, and whose second page is empty.
\<close>

definition demo_ops :: "nat NumberOps" where
  "demo_ops = \<lparr>parseFloat = length, plus_number = (+), toString = (\<lambda>n. replicate n (CHR ''1''))\<rparr>"

definition demo_page :: HeliusData where
  "demo_page =
     \<lparr>result = Some
        \<lparr>token_accounts = Some
           [\<lparr>owner = ''alice'', amount = ''1''\<rparr>,
            \<lparr>owner = ''bob'', amount = ''11''\<rparr>,
            \<lparr>owner = ''alice'', amount = ''111''\<rparr>],
         cursor = Some ''next''\<rparr>\<rparr>"

definition demo_helius :: "nat \<Rightarrow> PostParams \<Rightarrow> js_error + HeliusData option" where
  "demo_helius n q = (if n = 0 then Inr (Some demo_page) else Inr (Some \<lparr>result = None\<rparr>))"

definition demo_net :: Net where
  "demo_net = \<lparr>helius = demo_helius, posts = [], clock = (\<lambda>n. 1000 * n), ticks = 0\<rparr>"

section \<open>Auxiliary facts\<close>

lemma width_le_iff: "width n \<le> k \<longleftrightarrow> n < 2 ^ k"
proof (induction k arbitrary: n)
  case 0
  show ?case by (subst width.simps) simp
next
  case (Suc k)
  have "width n \<le> Suc k \<longleftrightarrow> n = 0 \<or> width (n div 2) \<le> k"
    by (subst width.simps) simp
  also have "\<dots> \<longleftrightarrow> n = 0 \<or> n div 2 < 2 ^ k"
    by (simp add: Suc.IH)
  also have "\<dots> \<longleftrightarrow> n < 2 ^ Suc k"
    by auto
  finally show ?case .
qed

lemma width_eqI: "2 ^ k \<le> n \<Longrightarrow> n < 2 ^ Suc k \<Longrightarrow> width n = Suc k"
  using width_le_iff [of n k] width_le_iff [of n "Suc k"] by simp

lemma round_double_small: "n < 2 ^ 53 \<Longrightarrow> round_double n = Finite n"
  by (simp add: round_double_def width_le_iff)

lemma width_2_53: "width 9007199254740992 = 54"
  using width_eqI [of 53 9007199254740992] by simp

lemma width_2_53_1: "width 9007199254740993 = 54"
  using width_eqI [of 53 9007199254740993] by simp

lemma round_double_2_53: "round_double 9007199254740992 = Finite 9007199254740992"
  by (simp add: round_double_def width_2_53 Let_def)

lemma round_double_2_53_1: "round_double 9007199254740993 = Finite 9007199254740992"
  by (simp add: round_double_def width_2_53_1 Let_def)

lemma next_index_small:
  assumes "n < 2 ^ 53"
  shows "BigInt (js_plus (Number n) (Finite 1)) = Inr (n + 1)"
proof (cases "n + 1 < 2 ^ 53")
  case True
  with assms show ?thesis by (simp add: Number_def round_double_small)
next
  case False
  with assms have "n + 1 = 9007199254740992" by simp
  with assms show ?thesis
    by (simp add: Number_def round_double_small round_double_2_53)
qed

lemma next_index_2_53:
  "BigInt (js_plus (Number 9007199254740992) (Finite (Suc 0))) = Inr 9007199254740992"
  by (simp add: Number_def round_double_2_53 round_double_2_53_1)

lemma width_lower: "0 < n \<Longrightarrow> 2 ^ (width n - 1) \<le> n"
proof -
  assume "0 < n"
  then have "0 < width n" by (subst width.simps) simp
  then have "\<not> width n \<le> width n - 1" by simp
  with width_le_iff [of n "width n - 1"] have "\<not> n < 2 ^ (width n - 1)" by blast
  then show ?thesis by (rule leI)
qed

text \<open>From \<open>2 ^ 53\<close> on, a number rounds to a double of at least \<open>2 ^ 53\<close>.\<close>

lemma round_double_large:
  assumes "2 ^ 53 \<le> n"
  shows "round_double n = PosInfinity \<or> (\<exists>d. round_double n = Finite d \<and> 2 ^ 53 \<le> d)"
proof -
  define e where "e = width n - 53"
  from assms have w: "53 < width n"
    using width_le_iff [of n 53] by simp
  then have e: "0 < e" and we: "width n - 1 = 52 + e"
    by (simp_all add: e_def)
  from assms have "0 < n" by (simp add: order.strict_trans2 [of 0 "2 ^ 53" n])
  from width_lower [OF this] we have "2 ^ (52 + e) \<le> n" by simp
  then have "2 ^ (52 + e) div 2 ^ e \<le> n div 2 ^ e" by (rule div_le_mono)
  then have q: "(2::nat) ^ 52 \<le> n div 2 ^ e" by (simp add: power_add)
  from e have "(2::nat) ^ 1 \<le> 2 ^ e" by (intro power_increasing) simp_all
  then have p: "(2::nat) \<le> 2 ^ e" by simp
  have b: "(2::nat) ^ 53 \<le> c * 2 ^ e" if "n div 2 ^ e \<le> c" for c
  proof -
    from q that have "(2::nat) ^ 52 \<le> c" by simp
    from mult_le_mono [OF this p] show ?thesis by simp
  qed
  have b1: "(2::nat) ^ 53 \<le> (n div 2 ^ e) * 2 ^ e" by (rule b) simp
  have b2: "(2::nat) ^ 53 \<le> (n div 2 ^ e + 1) * 2 ^ e" by (rule b) simp
  from w have nw: "\<not> width n \<le> 53" by simp
  show ?thesis
    unfolding round_double_def Let_def e_def [symmetric]
    using nw b1 b2 by (simp del: power_numeral mult_Suc add: e_def [symmetric])
qed

text \<open>
  The index that \<^verbatim>\<open>sendTx\<close> computes: the index read plus one when the result stays
  within \<open>2 ^ 53 - 1\<close>, and never within \<open>2 ^ 53 - 1\<close> otherwise.
\<close>

lemma next_index_safe:
  assumes "BigInt (js_plus (Number idx) (Finite 1)) = Inr n" and "n \<le> MAX_SAFE_INTEGER"
  shows "n = idx + 1"
proof (cases "idx < 2 ^ 53")
  case True
  from next_index_small [OF True] assms(1) show ?thesis by simp
next
  case False
  then have "2 ^ 53 \<le> idx" by simp
  from round_double_large [OF this] assms(1) obtain d where
    d: "round_double idx = Finite d" "2 ^ 53 \<le> d"
    by (auto simp: Number_def)
  then have "2 ^ 53 \<le> d + 1" by simp
  from round_double_large [OF this] assms(1) d obtain d' where
    "round_double (d + 1) = Finite d'" "2 ^ 53 \<le> d'"
    by (auto simp: Number_def)
  with assms(1) d have "2 ^ 53 \<le> n" by (simp add: Number_def)
  with assms(2) show ?thesis by (simp add: MAX_SAFE_INTEGER_def)
qed

lemmas builder_defs =
  vaultTransactionCreate_def proposalCreate_def proposalApprove_def toU64Bytes_def

lemmas read_defs =
  getLatestBlockhash_def ProgramConfig_fromAccountAddress_def Multisig_fromAccountAddress_def
  VaultTransaction_fromAccountAddress_def rpc_def

lemmas read_splits =
  prod.splits sum.splits response.splits option.splits account.splits

lemma sendTx_InrD:
  assumes "sendTx sdk s ix w = (Inr r, s', w')"
  shows "\<exists>bh info n.
     ledger w (length (calls w)) (connection s) GetLatestBlockhash = Inr (BlockhashResponse bh)
   \<and> ledger w (Suc (length (calls w))) (connection s) (GetAccountInfo (multisigPda s))
       = Inr (AccountInfoResponse (Some (MultisigAccount info)))
   \<and> BigInt (js_plus (Number (transactionIndex info)) (Finite 1)) = Inr n
   \<and> n \<le> MAX_SAFE_INTEGER
   \<and> r = \<lparr>transfer_ix = VaultTransactionCreate
             \<lparr>vc_multisigPda = multisigPda s, vc_transactionIndex = n, vc_creator = agent s,
              vc_vaultIndex = 0, vc_ephemeralSigners = 0,
              vc_transactionMessage =
                \<lparr>payerKey = agent s, recentBlockhash = bh, instructions = ix\<rparr>\<rparr>,
           create_ix = ProposalCreate
             \<lparr>pc_multisigPda = multisigPda s, pc_transactionIndex = n, pc_creator = agent s\<rparr>,
           approve_ix = ProposalApprove
             \<lparr>pa_multisigPda = multisigPda s, pa_member = agent s, pa_transactionIndex = n\<rparr>\<rparr>
   \<and> s' = s
   \<and> w' = w\<lparr>calls := calls w @ [(connection s, GetLatestBlockhash),
                                 (connection s, GetAccountInfo (multisigPda s))]\<rparr>"
  using assms
  by (auto simp: sendTx_def read_defs builder_defs Let_def split: read_splits if_splits)

lemma createMultiSig_InrD:
  assumes "createMultiSig sdk s w = (Inr r, s', w')"
  shows "\<exists>cfg.
     ledger w (length (calls w)) (connection s) (GetAccountInfo (getProgramConfigPda sdk))
       = Inr (AccountInfoResponse (Some (ProgramConfigAccount cfg)))
   \<and> cm_ix r = MultisigCreateV2
        \<lparr>mc_createKey = publicKey (createKey s), mc_creator = publicKey (feePayer s),
         mc_multisigPda = multisigPda s, mc_configAuthority = publicKey (feePayer s),
         mc_timeLock = 0,
         mc_members = [\<lparr>key = publicKey (feePayer s), permissions = Permissions_all\<rparr>,
                       \<lparr>key = agent s, permissions = Permissions_all\<rparr>],
         mc_threshold = 1, mc_treasury = Some (treasury cfg),
         mc_rentCollector = publicKey (feePayer s)\<rparr>
   \<and> cm_create_key r = createKey s
   \<and> s' = s\<lparr>configTreasury := Some (treasury cfg)\<rparr>
   \<and> w' = w\<lparr>calls := calls w @ [(connection s, GetAccountInfo (getProgramConfigPda sdk))]\<rparr>"
  using assms
  by (auto simp: createMultiSig_def read_defs Let_def split: read_splits)

lemma createMultiSig_frame:
  "createMultiSig sdk s w = (r, s', w') \<Longrightarrow>
     \<exists>t. s' = s\<lparr>configTreasury := t\<rparr>"
  by (auto simp: createMultiSig_def read_defs Let_def split: read_splits intro: exI [of _ "configTreasury s"])

lemma sendTx_frame: "sendTx sdk s ix w = (r, s', w') \<Longrightarrow> s' = s"
  by (auto simp: sendTx_def read_defs Let_def split: read_splits)

lemma addSpendingLimit_frame: "addSpendingLimit sdk s w = (r, s', w') \<Longrightarrow> s' = s"
  by (auto simp: addSpendingLimit_def Keypair_generate_def Let_def)

lemma executeTx_frame: "executeTx sdk s w = (r, s', w') \<Longrightarrow> s' = s"
  by (auto simp: executeTx_def split: prod.splits)

lemma perform_frame:
  "perform sdk c (s, w) = (s', w') \<Longrightarrow> \<exists>t. s' = s\<lparr>configTreasury := t\<rparr>"
proof (cases c)
  case CreateMultiSig
  assume "perform sdk c (s, w) = (s', w')"
  with CreateMultiSig obtain r where "createMultiSig sdk s w = (r, s', w')"
    by (cases "createMultiSig sdk s w") auto
  then show ?thesis by (rule createMultiSig_frame)
next
  case AddSpendingLimit
  assume "perform sdk c (s, w) = (s', w')"
  with AddSpendingLimit obtain r where "addSpendingLimit sdk s w = (r, s', w')"
    by (cases "addSpendingLimit sdk s w") auto
  then have "s' = s" by (rule addSpendingLimit_frame)
  then show ?thesis by (auto intro: exI [of _ "configTreasury s"])
next
  case (SendTx ix)
  assume "perform sdk c (s, w) = (s', w')"
  with SendTx obtain r where "sendTx sdk s ix w = (r, s', w')"
    by (cases "sendTx sdk s ix w") auto
  then have "s' = s" by (rule sendTx_frame)
  then show ?thesis by (auto intro: exI [of _ "configTreasury s"])
next
  case ExecuteTx
  assume "perform sdk c (s, w) = (s', w')"
  with ExecuteTx obtain r where "executeTx sdk s w = (r, s', w')"
    by (cases "executeTx sdk s w") auto
  then have "s' = s" by (rule executeTx_frame)
  then show ?thesis by (auto intro: exI [of _ "configTreasury s"])
qed

lemma run_frame:
  "run sdk cs (s, w) = (s', w') \<Longrightarrow> \<exists>t. s' = s\<lparr>configTreasury := t\<rparr>"
proof (induction cs arbitrary: s w)
  case Nil
  then show ?case by (auto intro: exI [of _ "configTreasury s"])
next
  case (Cons c cs)
  obtain s1 w1 where p: "perform sdk c (s, w) = (s1, w1)"
    by (cases "perform sdk c (s, w)")
  with Cons.prems have "run sdk cs (s1, w1) = (s', w')" by simp
  then obtain t where "s' = s1\<lparr>configTreasury := t\<rparr>"
    using Cons.IH by blast
  moreover from p obtain t1 where "s1 = s\<lparr>configTreasury := t1\<rparr>"
    using perform_frame by blast
  ultimately show ?case by auto
qed


lemma small_6: "BigInt (js_plus (Number 6) (Finite (Suc 0))) = Inr 7"
  using next_index_small [of 6] by simp

lemmas demo_defs =
  demo_sdk_def demo_world_def demo_service_def demo_account_def demo_keygen_def
  big_world_def offline_world_def flaky_world_def stuck_world_def

lemmas guard_defs = builder_defs MAX_SAFE_INTEGER_def

text \<open>At index \<open>2 ^ 53\<close> the call is rejected by the guard of \<^verbatim>\<open>proposalCreate\<close>.\<close>

lemma sendTx_rejects_at_2_53:
  "fst (sendTx demo_sdk demo_service [] big_world) = Inl (Error ''transactionIndex is too large'')"
  by (simp add: sendTx_def read_defs demo_defs next_index_2_53 guard_defs)

section \<open>Transaction index of a proposal\<close>

text \<open>
  C1. Whenever \<^verbatim>\<open>sendTx\<close> returns, the multisig account it read in this call
  reported some transaction index, and the vault-transaction create, the proposal
  create and the proposal approve instruction it returns all carry that index plus one.
\<close>

theorem sendTx_next_index:
  assumes "sendTx sdk s ix w = (Inr r, s', w')"
  shows "\<exists>info a b c.
       ledger w (Suc (length (calls w))) (connection s) (GetAccountInfo (multisigPda s))
         = Inr (AccountInfoResponse (Some (MultisigAccount info)))
     \<and> transfer_ix r = VaultTransactionCreate a \<and> create_ix r = ProposalCreate b
     \<and> approve_ix r = ProposalApprove c
     \<and> vc_transactionIndex a = transactionIndex info + 1
     \<and> pc_transactionIndex b = transactionIndex info + 1
     \<and> pa_transactionIndex c = transactionIndex info + 1"
proof -
  from sendTx_InrD [OF assms] obtain bh info n where
    a: "ledger w (Suc (length (calls w))) (connection s) (GetAccountInfo (multisigPda s))
       = Inr (AccountInfoResponse (Some (MultisigAccount info)))"
    and n: "BigInt (js_plus (Number (transactionIndex info)) (Finite 1)) = Inr n"
    and m: "n \<le> MAX_SAFE_INTEGER"
    and r: "r = \<lparr>transfer_ix = VaultTransactionCreate
             \<lparr>vc_multisigPda = multisigPda s, vc_transactionIndex = n, vc_creator = agent s,
              vc_vaultIndex = 0, vc_ephemeralSigners = 0,
              vc_transactionMessage =
                \<lparr>payerKey = agent s, recentBlockhash = bh, instructions = ix\<rparr>\<rparr>,
           create_ix = ProposalCreate
             \<lparr>pc_multisigPda = multisigPda s, pc_transactionIndex = n, pc_creator = agent s\<rparr>,
           approve_ix = ProposalApprove
             \<lparr>pa_multisigPda = multisigPda s, pa_member = agent s, pa_transactionIndex = n\<rparr>\<rparr>"
    by blast
  from next_index_safe [OF n m] have "n = transactionIndex info + 1" .
  with a r show ?thesis by simp
qed

text \<open>
  On the concrete ledger the account reports index 6 to the read of \<^verbatim>\<open>sendTx\<close>, and
  the three instructions carry 7.
\<close>

theorem sendTx_next_index_witness:
  "\<exists>r s' w' a b c.
      sendTx demo_sdk demo_service [] demo_world = (Inr r, s', w')
    \<and> ledger demo_world (Suc (length (calls demo_world))) (connection demo_service)
         (GetAccountInfo (multisigPda demo_service))
       = Inr (AccountInfoResponse (Some (MultisigAccount
           \<lparr>threshold = 1, transactionIndex = 6, staleTransactionIndex = 0\<rparr>)))
    \<and> transfer_ix r = VaultTransactionCreate a \<and> create_ix r = ProposalCreate b
    \<and> approve_ix r = ProposalApprove c
    \<and> vc_transactionIndex a = 7 \<and> pc_transactionIndex b = 7 \<and> pa_transactionIndex c = 7"
proof -
  obtain r s' w' where st: "sendTx demo_sdk demo_service [] demo_world = (Inr r, s', w')"
    by (simp add: sendTx_def read_defs demo_defs small_6 guard_defs)
  have l: "ledger demo_world (Suc (length (calls demo_world))) (connection demo_service)
         (GetAccountInfo (multisigPda demo_service))
       = Inr (AccountInfoResponse (Some (MultisigAccount
           \<lparr>threshold = 1, transactionIndex = 6, staleTransactionIndex = 0\<rparr>)))"
    by (simp add: demo_defs)
  from sendTx_next_index [OF st] obtain info a b c where
    i: "ledger demo_world (Suc (length (calls demo_world))) (connection demo_service)
         (GetAccountInfo (multisigPda demo_service))
       = Inr (AccountInfoResponse (Some (MultisigAccount info)))"
    and x: "transfer_ix r = VaultTransactionCreate a" "create_ix r = ProposalCreate b"
      "approve_ix r = ProposalApprove c"
    and y: "vc_transactionIndex a = transactionIndex info + 1"
      "pc_transactionIndex b = transactionIndex info + 1"
      "pa_transactionIndex c = transactionIndex info + 1"
    by blast
  from i l have "transactionIndex info = 6" by auto
  with y have "vc_transactionIndex a = 7" "pc_transactionIndex b = 7" "pa_transactionIndex c = 7"
    by simp_all
  with st l x show ?thesis by blast
qed

section \<open>Index executed by executeTx\<close>

text \<open>
  C2. After any sequence of calls on a service, whenever \<^verbatim>\<open>executeTx\<close> returns an
  instruction, it is the execute instruction for transaction index 1 of the service's
  multisig address, and the one account it read is the vault transaction at index 1.
\<close>

theorem executeTx_index_literal:
  assumes "run sdk cs (s0, w0) = (s, w)" and "executeTx sdk s w = (Inr r, s', w')"
  shows "\<exists>ks. instruction r = VaultTransactionExecute
           \<lparr>ve_connection = connection s0, ve_multisigPda = multisigPda s0,
            ve_transactionIndex = 1, ve_member = agent s0\<rparr> ks
         \<and> requests_made w w' = [GetAccountInfo (getTransactionPda sdk (multisigPda s0) 1)]"
proof -
  from run_frame [OF assms(1)] obtain t where s: "s = s0\<lparr>configTreasury := t\<rparr>" ..
  from assms(2) show ?thesis
    by (auto simp: s executeTx_def vaultTransactionExecute_def read_defs requests_made_def
             split: read_splits)
qed

text \<open>
  On the concrete ledger \<^verbatim>\<open>sendTx\<close> creates the proposal for index 7, and the
  \<^verbatim>\<open>executeTx\<close> that follows still asks for index 1.
\<close>

theorem executeTx_index_literal_witness:
  "\<exists>a b c ks r s w s' w'.
     sendTx demo_sdk demo_service [] demo_world = (Inr \<lparr>transfer_ix = a, create_ix = ProposalCreate b, approve_ix = c\<rparr>, s, w)
     \<and> pc_transactionIndex b = 7
     \<and> run demo_sdk [SendTx []] (demo_service, demo_world) = (s, w)
     \<and> executeTx demo_sdk s w = (Inr r, s', w')
     \<and> instruction r = VaultTransactionExecute
           \<lparr>ve_connection = ''rpc'', ve_multisigPda = ''multisig/ck'',
            ve_transactionIndex = 1, ve_member = ''agent''\<rparr> ks"
proof -
  let ?w = "demo_world\<lparr>calls := [(''rpc'', GetLatestBlockhash), (''rpc'', GetAccountInfo ''multisig/ck'')]\<rparr>"
  let ?args = "\<lparr>ve_connection = ''rpc'', ve_multisigPda = ''multisig/ck'',
            ve_transactionIndex = 1, ve_member = ''agent''\<rparr>"
  let ?w' = "?w\<lparr>calls := calls ?w @ [(''rpc'', GetAccountInfo ''tx/multisig/ck'')]\<rparr>"
  have st: "sendTx demo_sdk demo_service [] demo_world =
     (Inr \<lparr>transfer_ix = VaultTransactionCreate
            \<lparr>vc_multisigPda = ''multisig/ck'', vc_transactionIndex = 7,
             vc_creator = ''agent'', vc_vaultIndex = 0, vc_ephemeralSigners = 0,
             vc_transactionMessage =
               \<lparr>payerKey = ''agent'', recentBlockhash = ''blockhash'', instructions = []\<rparr>\<rparr>,
          create_ix = ProposalCreate
            \<lparr>pc_multisigPda = ''multisig/ck'', pc_transactionIndex = 7,
             pc_creator = ''agent''\<rparr>,
          approve_ix = ProposalApprove
            \<lparr>pa_multisigPda = ''multisig/ck'', pa_member = ''agent'',
             pa_transactionIndex = 7\<rparr>\<rparr>, demo_service, ?w)"
    by (simp add: sendTx_def read_defs demo_defs small_6 guard_defs)
  then have rn: "run demo_sdk [SendTx []] (demo_service, demo_world) = (demo_service, ?w)"
    by simp
  have ex: "executeTx demo_sdk demo_service ?w =
     (Inr \<lparr>instruction = VaultTransactionExecute ?args [''agent''], lookupTableAccounts = []\<rparr>,
      demo_service, ?w')"
    by (simp add: executeTx_def vaultTransactionExecute_def read_defs demo_defs)
  from executeTx_index_literal [OF rn ex] st rn ex show ?thesis
    by (simp add: demo_service_def)
qed


lemma next_index_small_Suc [simp]:
  "n < 2 ^ 53 \<Longrightarrow> BigInt (js_plus (Number n) (Finite (Suc 0))) = Inr (Suc n)"
  using next_index_small [of n] by simp

section \<open>Spending limits\<close>




section \<open>The create instruction\<close>

text \<open>
  C5. Every instruction that \<^verbatim>\<open>createMultiSig\<close> returns lists the fee payer and the
  agent, in this order and nobody else, each with all permissions, has threshold 1, and
  its treasury is the one in the program-config account that this very call read from
  the ledger (the call makes exactly that one request), whatever treasury the service
  held before.
\<close>

theorem createMultiSig_instruction:
  assumes "createMultiSig sdk s w = (Inr r, s', w')"
  shows "\<exists>a cfg. cm_ix r = MultisigCreateV2 a
       \<and> mc_members a = [\<lparr>key = publicKey (feePayer s), permissions = Permissions_all\<rparr>,
                         \<lparr>key = agent s, permissions = Permissions_all\<rparr>]
       \<and> mc_threshold a = 1
       \<and> requests_made w w' = [GetAccountInfo (getProgramConfigPda sdk)]
       \<and> ledger w (length (calls w)) (connection s) (GetAccountInfo (getProgramConfigPda sdk))
           = Inr (AccountInfoResponse (Some (ProgramConfigAccount cfg)))
       \<and> mc_treasury a = Some (treasury cfg)"
  using createMultiSig_InrD [OF assms] by (auto simp: requests_made_def)

theorem createMultiSig_instruction_witness:
  "\<exists>r s' w' a. createMultiSig demo_sdk (demo_service\<lparr>configTreasury := Some ''stale''\<rparr>) demo_world
                 = (Inr r, s', w')
     \<and> cm_ix r = MultisigCreateV2 a
     \<and> mc_members a = [\<lparr>key = ''payer'', permissions = Permissions_all\<rparr>,
                       \<lparr>key = ''agent'', permissions = Permissions_all\<rparr>]
     \<and> mc_threshold a = 1
     \<and> mc_treasury a = Some ''treasury''"
proof -
  obtain r s' w' where c:
    "createMultiSig demo_sdk (demo_service\<lparr>configTreasury := Some ''stale''\<rparr>) demo_world
       = (Inr r, s', w')"
    by (simp add: createMultiSig_def read_defs demo_defs Let_def)
  from createMultiSig_instruction [OF c] c show ?thesis
    by (auto simp: demo_defs)
qed


section \<open>Reads of the ledger\<close>

text \<open>
  C6, as stated, fails: \<^verbatim>\<open>sendTx\<close> fetches the latest blockhash before it reads the
  multisig account, and when that fetch is rejected the call is rejected without any
  read of the multisig account.
\<close>

theorem sendTx_read_counterexample:
  "fst (sendTx demo_sdk demo_service [] offline_world) = Inl (Rejected ''offline'')
   \<and> count_list (requests_made offline_world (snd (snd (sendTx demo_sdk demo_service [] offline_world))))
        (GetAccountInfo (multisigPda demo_service)) = 0"
  by (simp add: sendTx_def read_defs demo_defs requests_made_def)

text \<open>
  C6, amended. \<^verbatim>\<open>createMultiSig\<close> makes exactly one request, the read of the
  program-config account, and a rejection of it is the rejection of the call.
  \<^verbatim>\<open>sendTx\<close> requests the latest blockhash once and then, only if that request
  yielded a blockhash, reads the multisig account once; a rejection of either request
  is the rejection of the call. Nothing is requested twice.
\<close>

theorem reads_once_no_retry:
  assumes "createMultiSig sdk s w = (r1, s1, w1)" and "sendTx sdk s ix w = (r2, s2, w2)"
  shows "requests_made w w1 = [GetAccountInfo (getProgramConfigPda sdk)]
       \<and> (\<forall>e. ledger w (length (calls w)) (connection s) (GetAccountInfo (getProgramConfigPda sdk)) = Inl e
              \<longrightarrow> r1 = Inl e)
       \<and> requests_made w w2 =
           GetLatestBlockhash #
             (if is_blockhash (ledger w (length (calls w)) (connection s) GetLatestBlockhash)
              then [GetAccountInfo (multisigPda s)] else [])
       \<and> (\<forall>e. ledger w (length (calls w)) (connection s) GetLatestBlockhash = Inl e \<longrightarrow> r2 = Inl e)
       \<and> (\<forall>e. is_blockhash (ledger w (length (calls w)) (connection s) GetLatestBlockhash)
              \<and> ledger w (Suc (length (calls w))) (connection s) (GetAccountInfo (multisigPda s)) = Inl e
              \<longrightarrow> r2 = Inl e)"
proof -
  from assms(1) have a: "requests_made w w1 = [GetAccountInfo (getProgramConfigPda sdk)]
       \<and> (\<forall>e. ledger w (length (calls w)) (connection s) (GetAccountInfo (getProgramConfigPda sdk)) = Inl e
              \<longrightarrow> r1 = Inl e)"
    by (auto simp: createMultiSig_def read_defs requests_made_def Let_def split: read_splits)
  from assms(2) have b: "requests_made w w2 =
           GetLatestBlockhash #
             (if is_blockhash (ledger w (length (calls w)) (connection s) GetLatestBlockhash)
              then [GetAccountInfo (multisigPda s)] else [])"
    by (auto simp: sendTx_def read_defs requests_made_def is_blockhash_def Let_def
             split: read_splits)
  from assms(2) have c: "\<forall>e. ledger w (length (calls w)) (connection s) GetLatestBlockhash = Inl e \<longrightarrow> r2 = Inl e"
    by (auto simp: sendTx_def read_defs Let_def split: read_splits)
  from assms(2) have d: "\<forall>e. is_blockhash (ledger w (length (calls w)) (connection s) GetLatestBlockhash)
              \<and> ledger w (Suc (length (calls w))) (connection s) (GetAccountInfo (multisigPda s)) = Inl e
              \<longrightarrow> r2 = Inl e"
    by (auto simp: sendTx_def read_defs is_blockhash_def Let_def split: read_splits)
  from a b c d show ?thesis by blast
qed

theorem reads_once_no_retry_witness:
  "\<exists>s1 w1 s2 w2.
      createMultiSig demo_sdk demo_service flaky_world = (Inl (Rejected ''429''), s1, w1)
    \<and> sendTx demo_sdk demo_service [] flaky_world = (Inl (Rejected ''429''), s2, w2)
    \<and> requests_made flaky_world w1 = [GetAccountInfo ''program_config'']
    \<and> requests_made flaky_world w2 = [GetLatestBlockhash, GetAccountInfo ''multisig/ck'']"
proof -
  obtain r1 s1 w1 where c: "createMultiSig demo_sdk demo_service flaky_world = (r1, s1, w1)"
    by (cases "createMultiSig demo_sdk demo_service flaky_world")
  obtain r2 s2 w2 where t: "sendTx demo_sdk demo_service [] flaky_world = (r2, s2, w2)"
    by (cases "sendTx demo_sdk demo_service [] flaky_world")
  have l0: "ledger flaky_world (length (calls flaky_world)) (connection demo_service)
              (GetAccountInfo (getProgramConfigPda demo_sdk)) = Inl (Rejected ''429'')"
    by (simp add: demo_defs)
  have l1: "is_blockhash (ledger flaky_world (length (calls flaky_world)) (connection demo_service)
              GetLatestBlockhash)"
    by (simp add: demo_defs is_blockhash_def)
  have l2: "ledger flaky_world (Suc (length (calls flaky_world))) (connection demo_service)
              (GetAccountInfo (multisigPda demo_service)) = Inl (Rejected ''429'')"
    by (simp add: demo_defs)
  from reads_once_no_retry [OF c t] l0 l1 l2
  have "r1 = Inl (Rejected ''429'')" and "r2 = Inl (Rejected ''429'')"
    and "requests_made flaky_world w1 = [GetAccountInfo (getProgramConfigPda demo_sdk)]"
    and "requests_made flaky_world w2 = [GetLatestBlockhash, GetAccountInfo (multisigPda demo_service)]"
    by simp_all
  with c t show ?thesis by (simp add: demo_defs)
qed


section \<open>Vault index\<close>

text \<open>
  C7. For a service built by the constructor and driven through any sequence of calls,
  the vault address is the derivation at index 0 from its multisig address, the
  instruction of \<^verbatim>\<open>addSpendingLimit\<close> has vault index 0, and every vault-transaction
  instruction returned by \<^verbatim>\<open>sendTx\<close> has vault index 0.
\<close>

theorem vault_index_zero:
  assumes "run sdk cs (fst (constructor sdk conn fp ag ck w0), w) = (s, w1)"
  shows "vaultPDA s = Some (getVaultPda sdk (multisigPda s) 0)
       \<and> (\<exists>a. sl_ix (fst (addSpendingLimit sdk s w1)) = MultisigAddSpendingLimit a \<and> sl_vaultIndex a = 0)
       \<and> (\<forall>ix r s' w'. sendTx sdk s ix w1 = (Inr r, s', w')
             \<longrightarrow> (\<exists>a. transfer_ix r = VaultTransactionCreate a \<and> vc_vaultIndex a = 0))"
proof -
  from run_frame [OF assms(1)] obtain t where
    "s = (fst (constructor sdk conn fp ag ck w0))\<lparr>configTreasury := t\<rparr>" ..
  then have "vaultPDA s = Some (getVaultPda sdk (multisigPda s) 0)"
    by (simp add: constructor_def Let_def split: prod.splits)
  moreover have "\<exists>a. sl_ix (fst (addSpendingLimit sdk s w1)) = MultisigAddSpendingLimit a \<and> sl_vaultIndex a = 0"
    by (simp add: addSpendingLimit_def Keypair_generate_def Let_def)
  moreover have "\<exists>a. transfer_ix r = VaultTransactionCreate a \<and> vc_vaultIndex a = 0"
    if "sendTx sdk s ix w1 = (Inr r, s', w')" for ix r s' w'
    using sendTx_InrD [OF that] by auto
  ultimately show ?thesis by blast
qed

lemma demo_constructor:
  "fst (constructor demo_sdk ''rpc'' \<lparr>publicKey = ''payer'', secretKey = ''payer_secret''\<rparr> ''agent''
     (Some \<lparr>publicKey = ''ck'', secretKey = ''ck_secret''\<rparr>) demo_world) = demo_service"
  by (simp add: constructor_def demo_defs Let_def)

lemma demo_createMultiSig:
  "snd (createMultiSig demo_sdk demo_service demo_world) =
     (demo_service\<lparr>configTreasury := Some ''treasury''\<rparr>,
      demo_world\<lparr>calls := [(''rpc'', GetAccountInfo ''program_config'')]\<rparr>)"
  by (simp add: createMultiSig_def read_defs demo_defs Let_def)

lemma demo_sendTx:
  "sendTx demo_sdk (demo_service\<lparr>configTreasury := Some ''treasury''\<rparr>) []
     (demo_world\<lparr>calls := [(''rpc'', GetAccountInfo ''program_config'')]\<rparr>) =
     (Inr \<lparr>transfer_ix = VaultTransactionCreate
            \<lparr>vc_multisigPda = ''multisig/ck'', vc_transactionIndex = 8,
             vc_creator = ''agent'', vc_vaultIndex = 0, vc_ephemeralSigners = 0,
             vc_transactionMessage =
               \<lparr>payerKey = ''agent'', recentBlockhash = ''blockhash'', instructions = []\<rparr>\<rparr>,
          create_ix = ProposalCreate
            \<lparr>pc_multisigPda = ''multisig/ck'', pc_transactionIndex = 8,
             pc_creator = ''agent''\<rparr>,
          approve_ix = ProposalApprove
            \<lparr>pa_multisigPda = ''multisig/ck'', pa_member = ''agent'',
             pa_transactionIndex = 8\<rparr>\<rparr>,
      demo_service\<lparr>configTreasury := Some ''treasury''\<rparr>,
      demo_world\<lparr>calls := [(''rpc'', GetAccountInfo ''program_config''),
                            (''rpc'', GetLatestBlockhash),
                            (''rpc'', GetAccountInfo ''multisig/ck'')]\<rparr>)"
  by (simp add: sendTx_def read_defs demo_defs guard_defs)

theorem vault_index_zero_witness:
  "\<exists>s w1 r s' w' a b.
      run demo_sdk [CreateMultiSig]
        (fst (constructor demo_sdk ''rpc'' \<lparr>publicKey = ''payer'', secretKey = ''payer_secret''\<rparr>
                ''agent'' (Some \<lparr>publicKey = ''ck'', secretKey = ''ck_secret''\<rparr>) demo_world),
         demo_world) = (s, w1)
    \<and> sendTx demo_sdk s [] w1 = (Inr r, s', w')
    \<and> vaultPDA s = Some (getVaultPda demo_sdk (multisigPda s) 0)
    \<and> sl_ix (fst (addSpendingLimit demo_sdk s w1)) = MultisigAddSpendingLimit a \<and> sl_vaultIndex a = 0
    \<and> transfer_ix r = VaultTransactionCreate b \<and> vc_vaultIndex b = 0"
proof -
  let ?s = "demo_service\<lparr>configTreasury := Some ''treasury''\<rparr>"
  let ?w = "demo_world\<lparr>calls := [(''rpc'', GetAccountInfo ''program_config'')]\<rparr>"
  have rn: "run demo_sdk [CreateMultiSig]
        (fst (constructor demo_sdk ''rpc'' \<lparr>publicKey = ''payer'', secretKey = ''payer_secret''\<rparr>
                ''agent'' (Some \<lparr>publicKey = ''ck'', secretKey = ''ck_secret''\<rparr>) demo_world),
         demo_world) = (?s, ?w)"
    by (simp add: demo_constructor demo_createMultiSig)
  obtain r s' w' where st: "sendTx demo_sdk ?s [] ?w = (Inr r, s', w')"
    using demo_sendTx by blast
  note t = vault_index_zero [OF rn]
  from t have v: "vaultPDA ?s = Some (getVaultPda demo_sdk (multisigPda ?s) 0)"
    by (rule conjunct1)
  from t obtain a where a:
    "sl_ix (fst (addSpendingLimit demo_sdk ?s ?w)) = MultisigAddSpendingLimit a \<and> sl_vaultIndex a = 0"
    by blast
  from t st obtain b where b: "transfer_ix r = VaultTransactionCreate b \<and> vc_vaultIndex b = 0"
    by blast
  from rn st v a b show ?thesis by blast
qed

section \<open>Frame of the service\<close>

text \<open>
  C8. Any sequence of \<^verbatim>\<open>createMultiSig\<close>, \<^verbatim>\<open>addSpendingLimit\<close>, \<^verbatim>\<open>sendTx\<close> and
  \<^verbatim>\<open>executeTx\<close> calls leaves the multisig address, the vault address, the create
  key, the agent, the fee payer and the connection of the service as they were; and a
  \<^verbatim>\<open>sendTx\<close> made afterwards tags its instructions with the index computed from the
  multisig account that this call itself read from the ledger.
\<close>

theorem service_fields_fixed:
  assumes "run sdk cs (s, w) = (s1, w1)"
  shows "multisigPda s1 = multisigPda s \<and> vaultPDA s1 = vaultPDA s \<and> createKey s1 = createKey s
       \<and> agent s1 = agent s \<and> feePayer s1 = feePayer s \<and> connection s1 = connection s
       \<and> (\<forall>ix r s2 w2. sendTx sdk s1 ix w1 = (Inr r, s2, w2) \<longrightarrow>
            (\<exists>info n a b c.
                ledger w1 (Suc (length (calls w1))) (connection s) (GetAccountInfo (multisigPda s))
                  = Inr (AccountInfoResponse (Some (MultisigAccount info)))
              \<and> BigInt (js_plus (Number (transactionIndex info)) (Finite 1)) = Inr n
              \<and> transfer_ix r = VaultTransactionCreate a \<and> vc_transactionIndex a = n
              \<and> create_ix r = ProposalCreate b \<and> pc_transactionIndex b = n
              \<and> approve_ix r = ProposalApprove c \<and> pa_transactionIndex c = n))"
proof -
  from run_frame [OF assms] obtain t where s1: "s1 = s\<lparr>configTreasury := t\<rparr>" ..
  have "\<exists>info n a b c.
                ledger w1 (Suc (length (calls w1))) (connection s) (GetAccountInfo (multisigPda s))
                  = Inr (AccountInfoResponse (Some (MultisigAccount info)))
              \<and> BigInt (js_plus (Number (transactionIndex info)) (Finite 1)) = Inr n
              \<and> transfer_ix r = VaultTransactionCreate a \<and> vc_transactionIndex a = n
              \<and> create_ix r = ProposalCreate b \<and> pc_transactionIndex b = n
              \<and> approve_ix r = ProposalApprove c \<and> pa_transactionIndex c = n"
    if "sendTx sdk s1 ix w1 = (Inr r, s2, w2)" for ix r s2 w2
    using sendTx_InrD [OF that] unfolding s1 by auto
  with s1 show ?thesis by simp
qed

theorem service_fields_fixed_witness:
  "\<exists>s1 w1 r s2 w2 b.
      run demo_sdk [CreateMultiSig, SendTx []] (demo_service, demo_world) = (s1, w1)
    \<and> multisigPda s1 = ''multisig/ck'' \<and> vaultPDA s1 = Some ''vault/multisig/ck''
    \<and> agent s1 = ''agent''
    \<and> sendTx demo_sdk s1 [] w1 = (Inr r, s2, w2)
    \<and> create_ix r = ProposalCreate b \<and> pc_transactionIndex b = 10"
proof -
  let ?s = "demo_service\<lparr>configTreasury := Some ''treasury''\<rparr>"
  let ?w = "demo_world\<lparr>calls := [(''rpc'', GetAccountInfo ''program_config''),
                            (''rpc'', GetLatestBlockhash),
                            (''rpc'', GetAccountInfo ''multisig/ck'')]\<rparr>"
  have rn: "run demo_sdk [CreateMultiSig, SendTx []] (demo_service, demo_world) = (?s, ?w)"
    by (simp add: demo_createMultiSig demo_sendTx)
  obtain r s2 w2 where st: "sendTx demo_sdk ?s [] ?w = (Inr r, s2, w2)"
    by (simp add: sendTx_def read_defs demo_defs guard_defs)
  have l: "ledger ?w (Suc (length (calls ?w))) (connection demo_service)
             (GetAccountInfo (multisigPda demo_service))
           = Inr (AccountInfoResponse (Some (MultisigAccount
               \<lparr>threshold = 1, transactionIndex = 9, staleTransactionIndex = 0\<rparr>)))"
    by (simp add: demo_defs)
  note t = service_fields_fixed [OF rn]
  from t have f: "multisigPda ?s = multisigPda demo_service" "vaultPDA ?s = vaultPDA demo_service"
    "agent ?s = agent demo_service"
    by blast+
  from t st obtain info n b where
    i: "ledger ?w (Suc (length (calls ?w))) (connection demo_service)
             (GetAccountInfo (multisigPda demo_service))
           = Inr (AccountInfoResponse (Some (MultisigAccount info)))"
    and n: "BigInt (js_plus (Number (transactionIndex info)) (Finite 1)) = Inr n"
    and b: "create_ix r = ProposalCreate b" "pc_transactionIndex b = n"
    by blast
  from i l have "transactionIndex info = 9" by simp
  with n have "n = 10" by simp
  with b have b': "create_ix r = ProposalCreate b \<and> pc_transactionIndex b = 10" by simp
  have d: "multisigPda demo_service = ''multisig/ck''"
    "vaultPDA demo_service = Some ''vault/multisig/ck''" "agent demo_service = ''agent''"
    by (simp_all add: demo_service_def)
  from rn st f [unfolded d] b' show ?thesis by blast
qed

section \<open>Determinism of the multisig address\<close>

text \<open>
  C3. The multisig address of a service is the program client's derivation applied to the
  public key of its create key and to nothing else: two services constructed with the
  same create key have the same multisig address, whatever their connections, fee
  payers, agents and worlds.
\<close>

theorem constructor_multisigPda_deterministic:
  "multisigPda (fst (constructor sdk conn1 fp1 ag1 (Some ck) w1)) = getMultisigPda sdk (publicKey ck)
   \<and> multisigPda (fst (constructor sdk conn1 fp1 ag1 (Some ck) w1))
       = multisigPda (fst (constructor sdk conn2 fp2 ag2 (Some ck) w2))
   \<and> multisigPda (fst (constructor sdk conn1 fp1 ag1 k w1))
       = getMultisigPda sdk (publicKey (createKey (fst (constructor sdk conn1 fp1 ag1 k w1))))"
  by (simp add: constructor_def Let_def split: prod.splits)

section \<open>Chunks of a split message\<close>

lemma splitMessage_loop_inv:
  assumes "\<forall>l \<in> set lines. length l \<le> MAX_MESSAGE_LENGTH"
    and "\<forall>c \<in> set chunks. length c \<le> MAX_MESSAGE_LENGTH \<and> c \<noteq> []"
    and "length cur \<le> MAX_MESSAGE_LENGTH"
    and "splitMessage_loop lines chunks cur = (chunks', cur')"
  shows "(\<forall>c \<in> set chunks'. length c \<le> MAX_MESSAGE_LENGTH \<and> c \<noteq> [])
       \<and> length cur' \<le> MAX_MESSAGE_LENGTH"
  using assms
proof (induction lines arbitrary: chunks cur)
  case Nil
  then show ?case by simp
next
  case (Cons line lines)
  from Cons.prems(1) have rest: "\<forall>l \<in> set lines. length l \<le> MAX_MESSAGE_LENGTH"
    and line: "length line \<le> MAX_MESSAGE_LENGTH"
    by simp_all
  show ?case
  proof (cases "length cur + length line + 1 \<le> MAX_MESSAGE_LENGTH")
    case True
    let ?cur = "cur @ (if cur \<noteq> [] then [newline] else []) @ line"
    from True have len: "length ?cur \<le> MAX_MESSAGE_LENGTH" by simp
    from True Cons.prems(4) have eq: "splitMessage_loop lines chunks ?cur = (chunks', cur')"
      by simp
    show ?thesis by (rule Cons.IH [OF rest Cons.prems(2) len eq])
  next
    case False
    let ?chunks = "if cur \<noteq> [] then chunks @ [cur] else chunks"
    from Cons.prems(2,3) have ok: "\<forall>c \<in> set ?chunks. length c \<le> MAX_MESSAGE_LENGTH \<and> c \<noteq> []"
      by simp
    from False Cons.prems(4) have eq: "splitMessage_loop lines ?chunks line = (chunks', cur')"
      by simp
    show ?thesis by (rule Cons.IH [OF rest ok line eq])
  qed
qed

text \<open>
  C9. When every line of the text (the pieces between newlines) has at most 4096 code
  units, every chunk returned by \<^verbatim>\<open>splitMessage\<close> has at most 4096 code units and
  is not empty.
\<close>

theorem splitMessage_chunks_bounded:
  assumes "\<forall>line \<in> set (split_newline text). length line \<le> 4096"
  shows "\<forall>chunk \<in> set (splitMessage text). length chunk \<le> 4096 \<and> chunk \<noteq> []"
proof -
  obtain chunks cur where l: "splitMessage_loop (split_newline text) [] [] = (chunks, cur)"
    by (cases "splitMessage_loop (split_newline text) [] []")
  from assms have a: "\<forall>l \<in> set (split_newline text). length l \<le> MAX_MESSAGE_LENGTH"
    by (simp add: MAX_MESSAGE_LENGTH_def)
  have b: "\<forall>c \<in> set ([] :: jsstring list). length c \<le> MAX_MESSAGE_LENGTH \<and> c \<noteq> []"
    by simp
  have c: "length ([] :: jsstring) \<le> MAX_MESSAGE_LENGTH"
    by simp
  from splitMessage_loop_inv [OF a b c l]
  have "(\<forall>c \<in> set chunks. length c \<le> 4096 \<and> c \<noteq> []) \<and> length cur \<le> 4096"
    by (simp add: MAX_MESSAGE_LENGTH_def)
  then show ?thesis
    by (simp add: splitMessage_def l)
qed

lemma demo_text_lines: "split_newline demo_text = [[0x61, 0x62], [0x63, 0x64]]"
  by (simp add: demo_text_def newline_def)

theorem splitMessage_chunks_bounded_witness:
  "split_newline demo_text = [[0x61, 0x62], [0x63, 0x64]]
   \<and> splitMessage demo_text = [demo_text]
   \<and> length demo_text \<le> 4096 \<and> demo_text \<noteq> []"
proof -
  have h: "\<forall>line \<in> set (split_newline demo_text). length line \<le> 4096"
    by (simp add: demo_text_lines)
  have e: "splitMessage demo_text = [demo_text]"
    by (simp add: splitMessage_def demo_text_lines MAX_MESSAGE_LENGTH_def demo_text_def newline_def)
  from splitMessage_chunks_bounded [OF h] e
  have "length demo_text \<le> 4096 \<and> demo_text \<noteq> []"
    by simp
  with e demo_text_lines show ?thesis by simp
qed

section \<open>Pagination of the holder list\<close>

lemma Map_set_keys:
  "map fst (Map_set m k v) = (if k \<in> set (map fst m) then map fst m else map fst m @ [k])"
  by (induction m) force+

lemma Map_set_distinct: "distinct (map fst m) \<Longrightarrow> distinct (map fst (Map_set m k v))"
  by (simp add: Map_set_keys)

lemma add_account_distinct:
  "distinct (map fst m) \<Longrightarrow> distinct (map fst (add_account ops m a))"
  by (simp add: add_account_def Let_def Map_set_distinct split: option.splits)

lemma foldl_add_account_distinct:
  "distinct (map fst m) \<Longrightarrow> distinct (map fst (foldl (add_account ops) m accs))"
  by (induction accs arbitrary: m) (simp_all add: add_account_distinct)

text \<open>
  What one run of the pagination loop does, from any page on: it posts at most
  \<open>101 - page\<close> requests, and when it ends normally the entries of the map have
  distinct owners and either the page counter has passed 100 or the last response had
  no token accounts.
\<close>

lemma holder_loop_props:
  assumes "holder_loop ops tok m page cur net = (r, net')" and "distinct (map fst m)"
  shows "\<exists>new. posts net' = posts net @ new \<and> length new \<le> 101 - page
           \<and> helius net' = helius net \<and> clock net' = clock net \<and> ticks net' = ticks net
           \<and> (\<forall>m'. r = Inr m' \<longrightarrow> distinct (map fst m')
                 \<and> (100 < page + length new
                    \<or> (new \<noteq> [] \<and> (\<exists>d. helius net (length (posts net') - 1) (last new) = Inr d
                                         \<and> page_accounts d = None))))"
  using assms
proof (induction ops tok m page cur net rule: holder_loop.induct)
  case (1 ops tok m page cur net)
  let ?q = "\<lparr>p_limit = 1000, p_mint = tok, p_cursor = cur\<rparr>"
  let ?net1 = "net\<lparr>posts := posts net @ [?q]\<rparr>"
  show ?case
  proof (cases "100 < page")
    case True
    with "1.prems" have "r = Inr m" "net' = net"
      by (simp_all add: holder_loop.simps)
    with True "1.prems"(2) show ?thesis by simp
  next
    case False
    note small = this
    have ap: "axios_post ?q net = (helius net (length (posts net)) ?q, ?net1)"
      by (simp add: axios_post_def)
    show ?thesis
    proof (cases "helius net (length (posts net)) ?q")
      case (Inl e)
      with small "1.prems"(1) ap have "r = Inl e" "net' = ?net1"
        by (simp_all add: holder_loop.simps [of ops tok m page cur net] axios_post_def)
      with small show ?thesis
        by simp
    next
      case (Inr d)
      show ?thesis
      proof (cases "page_accounts d")
        case None
        with small Inr "1.prems"(1) ap have "r = Inr m" "net' = ?net1"
          by (simp_all add: holder_loop.simps [of ops tok m page cur net] axios_post_def)
        with small None Inr "1.prems"(2) show ?thesis
          by simp
      next
        case (Some pr)
        obtain accs cur1 where pr: "pr = (accs, cur1)" by (cases pr)
        let ?m1 = "foldl (add_account ops) m accs"
        from small Inr Some pr "1.prems"(1) ap
        have rec: "holder_loop ops tok ?m1 (page + 1) cur1 ?net1 = (r, net')"
          by (simp add: holder_loop.simps [of ops tok m page cur net] axios_post_def)
        have d1: "distinct (map fst ?m1)"
          using "1.prems"(2) by (rule foldl_add_account_distinct)
        from "1.IH" [OF small ap [symmetric] Inr Some pr [symmetric] rec d1]
        obtain new where n:
          "posts net' = posts ?net1 @ new" "length new \<le> 101 - (page + 1)"
          "helius net' = helius ?net1" "clock net' = clock ?net1" "ticks net' = ticks ?net1"
          "\<forall>m'. r = Inr m' \<longrightarrow> distinct (map fst m')
                 \<and> (100 < page + 1 + length new
                    \<or> (new \<noteq> [] \<and> (\<exists>d. helius ?net1 (length (posts net') - 1) (last new) = Inr d
                                         \<and> page_accounts d = None)))"
          by blast
        have inner: "distinct (map fst m')
                 \<and> (100 < page + length (?q # new)
                    \<or> (?q # new \<noteq> [] \<and> (\<exists>d. helius net (length (posts net') - 1) (last (?q # new)) = Inr d
                                         \<and> page_accounts d = None)))"
          if "r = Inr m'" for m'
        proof -
          from n(6) that have dm: "distinct (map fst m')"
            and alt: "100 < page + 1 + length new
                    \<or> (new \<noteq> [] \<and> (\<exists>d. helius ?net1 (length (posts net') - 1) (last new) = Inr d
                                         \<and> page_accounts d = None))"
            by blast+
          from alt show ?thesis
          proof
            assume "100 < page + 1 + length new"
            with dm show ?thesis by simp
          next
            assume "new \<noteq> [] \<and> (\<exists>d. helius ?net1 (length (posts net') - 1) (last new) = Inr d
                                         \<and> page_accounts d = None)"
            with dm show ?thesis by simp
          qed
        qed
        have "posts net' = posts net @ (?q # new)"
          using n(1) by simp
        moreover have "length (?q # new) \<le> 101 - page"
          using n(2) small by simp
        moreover have "helius net' = helius net" "clock net' = clock net" "ticks net' = ticks net"
          using n(3,4,5) by simp_all
        ultimately show ?thesis using inner by blast
      qed
    qed
  qed
qed


lemma cache_distinctD:
  "cache_distinct p \<Longrightarrow> cache p k = Some (v, t) \<Longrightarrow> distinct (map address v)"
  unfolding cache_distinct_def by blast

lemma cache_distinct_delete:
  assumes "cache_distinct p"
  shows "cache_distinct (p\<lparr>cache := (cache p)(k := None)\<rparr>)"
  unfolding cache_distinct_def
proof (intro allI impI)
  fix k' v t
  assume "cache (p\<lparr>cache := (cache p)(k := None)\<rparr>) k' = Some (v, t)"
  then have "cache p k' = Some (v, t)" by (simp split: if_splits)
  with assms show "distinct (map address v)" by (rule cache_distinctD)
qed

lemma cache_distinct_store:
  assumes "cache_distinct p" and "distinct (map address v)"
  shows "cache_distinct (p\<lparr>cache := (cache p)(k \<mapsto> (v, t))\<rparr>)"
  unfolding cache_distinct_def
proof (intro allI impI)
  fix k' v' t'
  assume "cache (p\<lparr>cache := (cache p)(k \<mapsto> (v, t))\<rparr>) k' = Some (v', t')"
  then have "v' = v \<or> cache p k' = Some (v', t')" by (simp split: if_splits)
  with assms show "distinct (map address v')" by (auto dest: cache_distinctD)
qed

lemma cache_distinct_same: "cache_distinct p \<Longrightarrow> cache_distinct (p\<lparr>cache := cache p\<rparr>)"
  by simp

lemma getCachedData_props:
  assumes "getCachedData k p net = (v, p1, net1)" and "cache_distinct p"
  shows "posts net1 = posts net \<and> helius net1 = helius net \<and> token_address p1 = token_address p
       \<and> cache_distinct p1 \<and> (\<forall>x. v = Some x \<longrightarrow> distinct (map address x))"
proof (cases "cache p k")
  case None
  with assms show ?thesis
    by (auto simp: getCachedData_def NodeCache_get_def)
next
  case (Some e)
  obtain x t where e: "e = (x, t)" by (cases e)
  from assms(2) Some e have dx: "distinct (map address x)" by (auto dest: cache_distinctD)
  from assms(2) have del: "cache_distinct (p\<lparr>cache := (cache p)(k := None)\<rparr>)"
    by (rule cache_distinct_delete)
  from assms(1) Some e consider
      "v = Some x" "p1 = p\<lparr>cache := cache p\<rparr>" "net1 = net"
    | "v = None" "p1 = p\<lparr>cache := (cache p)(k := None)\<rparr>" "net1 = net\<lparr>ticks := Suc (ticks net)\<rparr>"
    | "v = Some x" "p1 = p\<lparr>cache := cache p\<rparr>" "net1 = net\<lparr>ticks := Suc (ticks net)\<rparr>"
    by (auto simp: getCachedData_def NodeCache_get_def Date_now_def split: if_splits)
  then show ?thesis
  proof cases
    case 1
    with dx assms(2) show ?thesis by simp
  next
    case 2
    with del show ?thesis by simp
  next
    case 3
    with dx assms(2) show ?thesis by simp
  qed
qed

lemma setCachedData_props:
  assumes "setCachedData k v ttl p net = (p1, net1)" and "cache_distinct p"
    and "distinct (map address v)"
  shows "posts net1 = posts net \<and> cache_distinct p1"
proof -
  from assms(1) obtain t where "p1 = p\<lparr>cache := (cache p)(k \<mapsto> (v, t))\<rparr>"
    and "posts net1 = posts net"
    by (auto simp: setCachedData_def NodeCache_set_def Date_now_def Let_def
             split: option.splits if_splits)
  with cache_distinct_store [OF assms(2,3)] show ?thesis by simp
qed

lemma holders_distinct:
  "distinct (map address (map (\<lambda>(a, b). \<lparr>address = a, balance = f b\<rparr>) m)) = distinct (map fst m)"
proof -
  have "map address (map (\<lambda>(a, b). \<lparr>address = a, balance = f b\<rparr>) m) = map fst m"
    by (induction m) auto
  then show ?thesis by (rule arg_cong)
qed

lemma TokenProvider_new_cache_distinct: "cache_distinct (TokenProvider_new a)"
  by (simp add: cache_distinct_def TokenProvider_new_def)

text \<open>
  C10. \<^verbatim>\<open>fetchHolderList\<close> always returns or throws, after posting at most 100
  requests. A list it returns has no two entries with the same owner address, and when
  that list was not served from the cache, the loop ended either because the page
  counter passed 100 (after exactly 100 requests) or because the last response had no
  token accounts. The invariant that every cached list has distinct owners holds for a
  new provider and is kept by the call.
\<close>

theorem fetchHolderList_bounded:
  assumes "cache_distinct p" and "fetchHolderList ops p net = (r, p', net')"
  shows "\<exists>new. posts net' = posts net @ new \<and> length new \<le> 100
       \<and> (\<forall>hs. r = Inr hs \<longrightarrow> distinct (map address hs))
       \<and> (\<forall>hs. r = Inr hs \<and> fst (getCachedData (''holderList_'' @ token_address p) p net) = None
             \<longrightarrow> length new = 100
                 \<or> (new \<noteq> [] \<and> (\<exists>d. helius net (length (posts net') - 1) (last new) = Inr d
                                      \<and> page_accounts d = None)))
       \<and> cache_distinct p'"
proof -
  let ?k = "''holderList_'' @ token_address p"
  obtain v p1 net1 where g: "getCachedData ?k p net = (v, p1, net1)"
    by (cases "getCachedData ?k p net")
  from getCachedData_props [OF g assms(1)]
  have g1: "posts net1 = posts net" "helius net1 = helius net" "token_address p1 = token_address p"
    "cache_distinct p1" "\<forall>x. v = Some x \<longrightarrow> distinct (map address x)"
    by blast+
  show ?thesis
  proof (cases v)
    case (Some cached)
    with g assms(2) have "r = Inr cached" "p' = p1" "net' = net1"
      by (simp_all add: fetchHolderList_def Let_def)
    with g g1 Some show ?thesis by simp
  next
    case None
    obtain lr net2 where l: "holder_loop ops (token_address p1) [] 1 None net1 = (lr, net2)"
      by (cases "holder_loop ops (token_address p1) [] 1 None net1")
    have "distinct (map fst ([] :: (string \<times> 'a) list))" by simp
    from holder_loop_props [OF l this] obtain new where n0:
      "posts net2 = posts net1 @ new \<and> length new \<le> 101 - 1 \<and> helius net2 = helius net1
       \<and> clock net2 = clock net1 \<and> ticks net2 = ticks net1
       \<and> (\<forall>m'. lr = Inr m' \<longrightarrow> distinct (map fst m')
                 \<and> (100 < 1 + length new
                    \<or> (new \<noteq> [] \<and> (\<exists>d. helius net1 (length (posts net2) - 1) (last new) = Inr d
                                         \<and> page_accounts d = None))))"
      by blast
    then have "length new \<le> 101 - 1" by blast
    then have len: "length new \<le> 100" by simp
    from n0 len have n:
      "posts net2 = posts net1 @ new" "length new \<le> 100" "helius net2 = helius net1"
      "\<forall>m'. lr = Inr m' \<longrightarrow> distinct (map fst m')
                 \<and> (100 < 1 + length new
                    \<or> (new \<noteq> [] \<and> (\<exists>d. helius net1 (length (posts net2) - 1) (last new) = Inr d
                                         \<and> page_accounts d = None)))"
      by blast+
    show ?thesis
    proof (cases lr)
      case (Inl e)
      with g None l assms(2) have "r = Inl (Error ''Failed to fetch holder list from Helius.'')"
        "p' = p1" "net' = net2"
        by (simp_all add: fetchHolderList_def Let_def)
      with n g1 show ?thesis by simp
    next
      case (Inr m)
      let ?hs = "map (\<lambda>(a, b). \<lparr>address = a, balance = toString ops b\<rparr>) m"
      obtain p2 net3 where st: "setCachedData ?k ?hs (Some 3600) p1 net2 = (p2, net3)"
        by (cases "setCachedData ?k ?hs (Some 3600) p1 net2")
      from Inr n(4) have dm: "distinct (map fst m)"
        and alt: "100 < 1 + length new
                    \<or> (new \<noteq> [] \<and> (\<exists>d. helius net1 (length (posts net2) - 1) (last new) = Inr d
                                         \<and> page_accounts d = None))"
        by blast+
      from dm have dh: "distinct (map address ?hs)"
        by (simp only: holders_distinct)
      from setCachedData_props [OF st g1(4) dh]
      have s1: "posts net3 = posts net2" "cache_distinct p2" by blast+
      from g None l Inr st assms(2) have res: "r = Inr ?hs" "p' = p2" "net' = net3"
        by (simp_all add: fetchHolderList_def Let_def)
      from alt n(2) have "length new = 100
         \<or> (new \<noteq> [] \<and> (\<exists>d. helius net (length (posts net3) - 1) (last new) = Inr d
                                         \<and> page_accounts d = None))"
        using g1(2) s1(1) by auto
      with res dh s1 n(1,2) g1(1) show ?thesis by auto
    qed
  qed
qed

lemma demo_loop:
  "holder_loop demo_ops ''mint'' [] (Suc 0) None demo_net =
     (Inr [(''alice'', 4), (''bob'', 2)],
      demo_net\<lparr>posts := [\<lparr>p_limit = 1000, p_mint = ''mint'', p_cursor = None\<rparr>,
                          \<lparr>p_limit = 1000, p_mint = ''mint'', p_cursor = Some ''next''\<rparr>]\<rparr>)"
  apply (subst holder_loop.simps)
  apply (simp add: axios_post_def demo_net_def demo_helius_def demo_page_def page_accounts_def
      add_account_def demo_ops_def)
  apply (subst holder_loop.simps)
  apply (simp add: axios_post_def demo_net_def demo_helius_def demo_page_def page_accounts_def)
  done

lemma demo_toString: "toString demo_ops 4 = ''1111''" "toString demo_ops 2 = ''11''"
  by (simp_all add: demo_ops_def eval_nat_numeral)

theorem fetchHolderList_bounded_witness:
  "\<exists>p' net' new.
      cache_distinct (TokenProvider_new ''mint'')
    \<and> fst (getCachedData (''holderList_'' @ token_address (TokenProvider_new ''mint''))
             (TokenProvider_new ''mint'') demo_net) = None
    \<and> fetchHolderList demo_ops (TokenProvider_new ''mint'') demo_net =
        (Inr [\<lparr>address = ''alice'', balance = ''1111''\<rparr>, \<lparr>address = ''bob'', balance = ''11''\<rparr>],
         p', net')
    \<and> posts net' = posts demo_net @ new \<and> length new \<le> 100
    \<and> distinct (map address
         [\<lparr>address = ''alice'', balance = ''1111''\<rparr>, \<lparr>address = ''bob'', balance = ''11''\<rparr>])
    \<and> (length new = 100
        \<or> (new \<noteq> [] \<and> (\<exists>d. helius demo_net (length (posts net') - 1) (last new) = Inr d
                             \<and> page_accounts d = None)))
    \<and> cache_distinct p'"
proof -
  let ?hs = "[\<lparr>address = ''alice'', balance = ''1111''\<rparr>, \<lparr>address = ''bob'', balance = ''11''\<rparr>]"
  have c: "cache_distinct (TokenProvider_new ''mint'')"
    by (rule TokenProvider_new_cache_distinct)
  have g: "fst (getCachedData (''holderList_'' @ token_address (TokenProvider_new ''mint''))
             (TokenProvider_new ''mint'') demo_net) = None"
    by (simp add: getCachedData_def NodeCache_get_def TokenProvider_new_def)
  obtain p' net' where f:
    "fetchHolderList demo_ops (TokenProvider_new ''mint'') demo_net = (Inr ?hs, p', net')"
    by (simp add: fetchHolderList_def getCachedData_def NodeCache_get_def TokenProvider_new_def
        demo_loop setCachedData_def NodeCache_set_def Date_now_def Let_def demo_toString)
  from fetchHolderList_bounded [OF c f] g obtain new where
    "posts net' = posts demo_net @ new" "length new \<le> 100"
    "distinct (map address ?hs)"
    "length new = 100
        \<or> (new \<noteq> [] \<and> (\<exists>d. helius demo_net (length (posts net') - 1) (last new) = Inr d
                             \<and> page_accounts d = None))"
    "cache_distinct p'"
    by blast
  with c g f show ?thesis by blast
qed

end
